theory Spec2Isabelle
  imports Main
begin

section \<open>JavaScript values, entities and wire messages\<close>

text \<open>
  The values that travel through the client are JSON values: numbers (only integer-valued
  ones are modelled), strings, booleans and null. Each of them survives
  \<^verbatim>\<open>JSON.stringify\<close> followed by \<^verbatim>\<open>JSON.parse\<close> unchanged, so a frame on the
  wire is identified with the object it serialises.
  A JavaScript object is a finite mapping from property names to values; an absent
  property reads as \<^verbatim>\<open>undefined\<close>, which is \<open>None\<close> here.
\<close>

datatype jsval = JNum int | JStr string | JBool bool | JNull

type_synonym obj = "string \<rightharpoonup> jsval"

text \<open>
  \<^verbatim>\<open>{ ...x }\<close> for an \<open>x\<close> that may be \<^verbatim>\<open>undefined\<close>: spreading
  \<^verbatim>\<open>undefined\<close> contributes no property.
\<close>

definition spread :: "obj option \<Rightarrow> obj" where
  "spread x = (case x of None \<Rightarrow> Map.empty | Some e \<Rightarrow> e)"

text \<open>\<^verbatim>\<open>users[k]?.[f]\<close>: a field of the entry at a key.\<close>

definition field_of :: "(string \<rightharpoonup> obj) \<Rightarrow> string \<Rightarrow> string \<Rightarrow> jsval option" where
  "field_of us k f = (case us k of None \<Rightarrow> None | Some e \<Rightarrow> e f)"

text \<open>
  The object handed to \<^verbatim>\<open>WebSocketManager.send\<close> (\<^verbatim>\<open>message: any\<close>), with the
  properties that occur in the program: \<^verbatim>\<open>type\<close>, \<^verbatim>\<open>key\<close>, \<^verbatim>\<open>data\<close>,
  \<^verbatim>\<open>row_changes\<close>, and the single-field pair \<^verbatim>\<open>field\<close>/\<^verbatim>\<open>value\<close>.
  A frame on the wire (\<^verbatim>\<open>interface WebSocketMessage\<close> plus the stamp that
  \<^verbatim>\<open>send\<close> adds) extends it by \<^verbatim>\<open>version\<close>, \<^verbatim>\<open>clientId\<close> and \<^verbatim>\<open>time\<close>.
\<close>

record payload =
  mtype :: string
  key :: string
  data :: "obj option"
  row_changes :: "obj option"
  field :: "string option"
  val :: "jsval option"

record ws_message = payload +
  version :: int
  frame_clientId :: "string option"
  frame_time :: "string option"

section \<open>The component state and the inbound message handler (sync/src/App.tsx)\<close>

datatype connection_status = connecting | connected | disconnected

record app_state =
  users :: "string \<rightharpoonup> obj"
  connectionStatus :: connection_status

text \<open>
  \<^verbatim>\<open>handleMessage\<close>, lines 114-149. The \<^verbatim>\<open>console.log\<close> of the received message
  has no effect on the state and is not recorded. \<^verbatim>\<open>if (msg.data)\<close> and
  \<^verbatim>\<open>if (msg.row_changes)\<close> test for a present object; the \<^verbatim>\<open>switch\<close> has no
  default case.
\<close>

definition handleMessage :: "ws_message \<Rightarrow> app_state \<Rightarrow> app_state" where
  "handleMessage msg s =
    (let s1 = s\<lparr>connectionStatus := connected\<rparr> in
     if mtype msg = ''add'' then
       (case data msg of
          Some d \<Rightarrow> s1\<lparr>users := (users s1)(key msg \<mapsto> d(''is_deleted'' \<mapsto> JBool False))\<rparr>
        | None \<Rightarrow> s1)
     else if mtype msg = ''edit'' then
       (case row_changes msg of
          Some rc \<Rightarrow> s1\<lparr>users := (users s1)(key msg \<mapsto> spread (users s1 (key msg)) ++ rc)\<rparr>
        | None \<Rightarrow> s1)
     else if mtype msg = ''delete'' then
       s1\<lparr>users := (users s1)(key msg := None)\<rparr>
     else s1)"

text \<open>
  \<^verbatim>\<open>String.prototype.trim\<close>. Strings are sequences of 8-bit characters here, so the
  white space of ECMAScript is the part of it below 256: tab, line feed, vertical tab,
  form feed, carriage return, space and no-break space.
\<close>

definition js_whitespace :: "char \<Rightarrow> bool" where
  "js_whitespace c =
     (c = CHR 0x09 \<or> c = CHR 0x0A \<or> c = CHR 0x0B \<or> c = CHR 0x0C \<or> c = CHR 0x0D
      \<or> c = CHR '' '' \<or> c = CHR 0xA0)"

definition trim :: "string \<Rightarrow> string" where
  "trim s = rev (dropWhile js_whitespace (rev (dropWhile js_whitespace s)))"

section \<open>WebSocketManager and its environment (sync/src/App.tsx, lines 26-101)\<close>

text \<open>
  The browser owns the \<^verbatim>\<open>WebSocket\<close> objects, the timers and the console. A socket
  is named by its position in the table \<open>socks\<close>, which holds its \<^verbatim>\<open>readyState\<close>;
  \<open>timers\<close> holds every \<^verbatim>\<open>setTimeout\<close> call made so far, with its delay and whether
  its callback is still pending (all of them are the reconnection callback of
  \<^verbatim>\<open>attemptReconnect\<close>); \<open>sent\<close> is the log of the frames
  handed to \<^verbatim>\<open>socket.send\<close>. The handlers installed on a socket close over the manager,
  so they keep acting on it after the manager has dropped its reference to the socket.
  \<open>app\<close> is the state the registered callback works on.
\<close>

datatype ready_state = CONNECTING | OPEN | CLOSING | CLOSED

datatype console_line =
    Log_connected
  | Log_disconnected
  | Error_websocket
  | Error_failed_to_connect
  | Log_reconnection_attempt nat
  | Error_not_connected

record 'a WebSocketManager =
  socket :: "nat option"
  clientId :: string
  clientVersion :: int
  reconnectAttempts :: nat
  maxReconnectAttempts :: nat
  onMessageCallback :: "(ws_message \<Rightarrow> 'a \<Rightarrow> 'a) option"

record 'a world =
  mgr :: "'a WebSocketManager"
  socks :: "ready_state list"
  timers :: "(nat \<times> bool) list"
  sent :: "(nat \<times> ws_message) list"
  console :: "console_line list"
  app :: 'a

definition new_WebSocketManager :: "string \<Rightarrow> 'a WebSocketManager" where
  "new_WebSocketManager cid =
     \<lparr>socket = None, clientId = cid, clientVersion = 0, reconnectAttempts = 0,
      maxReconnectAttempts = 5, onMessageCallback = None\<rparr>"

text \<open>
  \<^verbatim>\<open>attemptReconnect\<close>, lines 70-80: the counter is incremented first, and the delay
  \<^verbatim>\<open>2000 * this.reconnectAttempts\<close> is computed from the incremented counter.
\<close>

definition attemptReconnect :: "'a world \<Rightarrow> 'a world" where
  "attemptReconnect w =
     (if reconnectAttempts (mgr w) < maxReconnectAttempts (mgr w) then
        (let m1 = (mgr w)\<lparr>reconnectAttempts := reconnectAttempts (mgr w) + 1\<rparr>
         in w\<lparr>mgr := m1, timers := timers w @ [(2000 * reconnectAttempts m1, True)]\<rparr>)
      else w)"

text \<open>
  \<^verbatim>\<open>connect\<close>, lines 38-68. \<open>constructed\<close> says whether \<^verbatim>\<open>new WebSocket(url)\<close>
  returned a socket (in state \<^verbatim>\<open>CONNECTING\<close>) or threw, which the \<^verbatim>\<open>catch\<close> block
  turns into a reconnection attempt.
\<close>

definition connect :: "(ws_message \<Rightarrow> 'a \<Rightarrow> 'a) \<Rightarrow> bool \<Rightarrow> 'a world \<Rightarrow> 'a world" where
  "connect onMessage constructed w =
     (let w1 = w\<lparr>mgr := (mgr w)\<lparr>onMessageCallback := Some onMessage\<rparr>\<rparr> in
      if constructed then
        w1\<lparr>mgr := (mgr w1)\<lparr>socket := Some (length (socks w1))\<rparr>,
           socks := socks w1 @ [CONNECTING]\<rparr>
      else attemptReconnect (w1\<lparr>console := console w1 @ [Error_failed_to_connect]\<rparr>))"

text \<open>The four handlers that \<^verbatim>\<open>connect\<close> installs on the socket.\<close>

definition onopen :: "'a world \<Rightarrow> 'a world" where
  "onopen w =
     w\<lparr>console := console w @ [Log_connected],
       mgr := (mgr w)\<lparr>reconnectAttempts := 0\<rparr>\<rparr>"

definition onmessage :: "ws_message \<Rightarrow> 'a world \<Rightarrow> 'a world" where
  "onmessage msg w =
     (let w1 = w\<lparr>mgr := (mgr w)\<lparr>clientVersion := version msg\<rparr>\<rparr> in
      case onMessageCallback (mgr w1) of
        Some cb \<Rightarrow> w1\<lparr>app := cb msg (app w1)\<rparr>
      | None \<Rightarrow> w1)"

definition onclose :: "'a world \<Rightarrow> 'a world" where
  "onclose w = attemptReconnect (w\<lparr>console := console w @ [Log_disconnected]\<rparr>)"

definition onerror :: "'a world \<Rightarrow> 'a world" where
  "onerror w = w\<lparr>console := console w @ [Error_websocket]\<rparr>"

text \<open>The callback that \<^verbatim>\<open>attemptReconnect\<close> passes to \<^verbatim>\<open>setTimeout\<close>, lines 73-78.\<close>

definition timer_callback :: "bool \<Rightarrow> 'a world \<Rightarrow> 'a world" where
  "timer_callback constructed w =
     (let w1 = w\<lparr>console := console w @ [Log_reconnection_attempt (reconnectAttempts (mgr w))]\<rparr>
      in case onMessageCallback (mgr w1) of
           Some cb \<Rightarrow> connect cb constructed w1
         | None \<Rightarrow> w1)"

text \<open>
  \<^verbatim>\<open>send\<close>, lines 82-93. \<open>now\<close> is \<^verbatim>\<open>new Date().toISOString()\<close>. The method has no
  \<^verbatim>\<open>return\<close> and no \<^verbatim>\<open>throw\<close>: what its caller gets back is the first component.
\<close>

datatype completion = Returned_undefined | Thrown string

definition stamp :: "payload \<Rightarrow> int \<Rightarrow> string \<Rightarrow> string \<Rightarrow> ws_message" where
  "stamp message v cid now =
     \<lparr>mtype = mtype message, key = key message, data = data message,
      row_changes = row_changes message, field = field message, val = val message,
      version = v, frame_clientId = Some cid, frame_time = Some now\<rparr>"

definition is_open :: "'a world \<Rightarrow> bool" where
  "is_open w =
     (case socket (mgr w) of
        Some i \<Rightarrow> i < length (socks w) \<and> socks w ! i = OPEN
      | None \<Rightarrow> False)"

definition send :: "payload \<Rightarrow> string \<Rightarrow> 'a world \<Rightarrow> completion \<times> 'a world" where
  "send message now w =
     (if is_open w then
        (Returned_undefined,
         w\<lparr>sent := sent w @
              [(the (socket (mgr w)),
                stamp message (clientVersion (mgr w)) (clientId (mgr w)) now)]\<rparr>)
      else (Returned_undefined, w\<lparr>console := console w @ [Error_not_connected]\<rparr>))"

text \<open>
  \<^verbatim>\<open>disconnect\<close>, lines 95-100. \<^verbatim>\<open>WebSocket.close()\<close> moves a connecting or open
  socket to \<^verbatim>\<open>CLOSING\<close> and does nothing to a closing or closed one; the browser
  delivers the close event later.
\<close>

definition close_socket :: "ready_state \<Rightarrow> ready_state" where
  "close_socket r = (case r of CONNECTING \<Rightarrow> CLOSING | OPEN \<Rightarrow> CLOSING | CLOSING \<Rightarrow> CLOSING | CLOSED \<Rightarrow> CLOSED)"

definition disconnect :: "'a world \<Rightarrow> 'a world" where
  "disconnect w =
     (case socket (mgr w) of
        Some i \<Rightarrow> w\<lparr>socks := (socks w)[i := close_socket (socks w ! i)],
                   mgr := (mgr w)\<lparr>socket := None\<rparr>\<rparr>
      | None \<Rightarrow> w)"

text \<open>
  What can happen to the manager: the browser delivers an event of a socket that is in
  a state to have it (an event that is not due changes nothing), a pending timer fires,
  or the program calls one of the public methods.
\<close>

datatype 'a event =
    Socket_open nat
  | Socket_message nat ws_message
  | Socket_error nat
  | Socket_close nat
  | Timer_fires nat bool
  | Call_connect "ws_message \<Rightarrow> 'a \<Rightarrow> 'a" bool
  | Call_send payload string
  | Call_disconnect

fun step :: "'a world \<Rightarrow> 'a event \<Rightarrow> 'a world" where
  "step w (Socket_open i) =
     (if i < length (socks w) \<and> socks w ! i = CONNECTING
      then onopen (w\<lparr>socks := (socks w)[i := OPEN]\<rparr>) else w)"
| "step w (Socket_message i msg) =
     (if i < length (socks w) \<and> socks w ! i = OPEN then onmessage msg w else w)"
| "step w (Socket_error i) =
     (if i < length (socks w) \<and> socks w ! i \<noteq> CLOSED then onerror w else w)"
| "step w (Socket_close i) =
     (if i < length (socks w) \<and> socks w ! i \<noteq> CLOSED
      then onclose (w\<lparr>socks := (socks w)[i := CLOSED]\<rparr>) else w)"
| "step w (Timer_fires k constructed) =
     (if k < length (timers w) \<and> snd (timers w ! k)
      then timer_callback constructed (w\<lparr>timers := (timers w)[k := (fst (timers w ! k), False)]\<rparr>)
      else w)"
| "step w (Call_connect onMessage constructed) = connect onMessage constructed w"
| "step w (Call_send message now) = snd (send message now w)"
| "step w Call_disconnect = disconnect w"

definition run :: "'a world \<Rightarrow> 'a event list \<Rightarrow> 'a world" where
  "run w evs = foldl step w evs"

section \<open>The user operations of the component (sync/src/App.tsx, lines 158-210)\<close>

text \<open>
  Each operation first updates \<open>users\<close> (the optimistic update) and then hands a message
  to \<^verbatim>\<open>wsManager.current?.send\<close>, whose result it ignores. The two halves are named
  apart so that the second can be run without the first. \<open>age\<close> is an integer-valued
  number.
\<close>

definition userData :: "string \<Rightarrow> int \<Rightarrow> string \<Rightarrow> obj" where
  "userData name age email =
     [''name'' \<mapsto> JStr (trim name), ''age'' \<mapsto> JNum age, ''email'' \<mapsto> JStr (trim email)]"

definition addUser_optimistic :: "string \<Rightarrow> int \<Rightarrow> string \<Rightarrow> app_state \<Rightarrow> app_state" where
  "addUser_optimistic name age email s =
     s\<lparr>users := (users s)(name \<mapsto> (userData name age email)(''is_deleted'' \<mapsto> JBool False))\<rparr>"

definition addUser_message :: "string \<Rightarrow> int \<Rightarrow> string \<Rightarrow> payload" where
  "addUser_message name age email =
     \<lparr>mtype = ''add'', key = name, data = Some (userData name age email),
      row_changes = None, field = None, val = None\<rparr>"

definition addUser :: "string \<Rightarrow> int \<Rightarrow> string \<Rightarrow> string \<Rightarrow> app_state world \<Rightarrow> app_state world" where
  "addUser name age email now w =
     snd (send (addUser_message name age email) now
            (w\<lparr>app := addUser_optimistic name age email (app w)\<rparr>))"

definition editUser_optimistic :: "string \<Rightarrow> string \<Rightarrow> jsval \<Rightarrow> app_state \<Rightarrow> app_state" where
  "editUser_optimistic k fld v s =
     s\<lparr>users := (users s)(k \<mapsto> (spread (users s k))(fld \<mapsto> v))\<rparr>"

definition editUser_message :: "string \<Rightarrow> string \<Rightarrow> jsval \<Rightarrow> payload" where
  "editUser_message k fld v =
     \<lparr>mtype = ''edit'', key = k, data = None, row_changes = None,
      field = Some fld, val = Some v\<rparr>"

definition editUser :: "string \<Rightarrow> string \<Rightarrow> jsval \<Rightarrow> string \<Rightarrow> app_state world \<Rightarrow> app_state world" where
  "editUser k fld v now w =
     snd (send (editUser_message k fld v) now (w\<lparr>app := editUser_optimistic k fld v (app w)\<rparr>))"

definition deleteUser_optimistic :: "string \<Rightarrow> app_state \<Rightarrow> app_state" where
  "deleteUser_optimistic k s = s\<lparr>users := (users s)(k := None)\<rparr>"

definition deleteUser_message :: "string \<Rightarrow> payload" where
  "deleteUser_message k =
     \<lparr>mtype = ''delete'', key = k, data = None, row_changes = None,
      field = None, val = None\<rparr>"

definition deleteUser :: "string \<Rightarrow> string \<Rightarrow> app_state world \<Rightarrow> app_state world" where
  "deleteUser k now w =
     snd (send (deleteUser_message k) now (w\<lparr>app := deleteUser_optimistic k (app w)\<rparr>))"

subsection \<open>Sessions of operations, each followed by its confirmation\<close>

datatype intent =
    AddEntity string int string
  | EditEntity string string jsval
  | DeleteEntity string

fun perform :: "intent \<Rightarrow> string \<Rightarrow> app_state world \<Rightarrow> app_state world" where
  "perform (AddEntity name age email) now w = addUser name age email now w"
| "perform (EditEntity k fld v) now w = editUser k fld v now w"
| "perform (DeleteEntity k) now w = deleteUser k now w"

fun request :: "intent \<Rightarrow> payload" where
  "request (AddEntity name age email) = addUser_message name age email"
| "request (EditEntity k fld v) = editUser_message k fld v"
| "request (DeleteEntity k) = deleteUser_message k"

text \<open>The optimistic update of an operation, by itself.\<close>

fun optimistic :: "intent \<Rightarrow> app_state \<Rightarrow> app_state" where
  "optimistic (AddEntity name age email) s = addUser_optimistic name age email s"
| "optimistic (EditEntity k fld v) s = editUser_optimistic k fld v s"
| "optimistic (DeleteEntity k) s = deleteUser_optimistic k s"

text \<open>The operation with its optimistic update left out: only the message is sent.\<close>

definition perform_without_optimistic :: "intent \<Rightarrow> string \<Rightarrow> app_state world \<Rightarrow> app_state world" where
  "perform_without_optimistic i now w = snd (send (request i) now w)"

text \<open>
  The confirmations of a call: every frame the call handed to the transport comes back
  on the same socket, as \<open>echo\<close> returns it. \<open>verbatim\<close> is the transport that returns
  the frame as it was sent. \<open>batched_form\<close> returns an edit with its single
  \<^verbatim>\<open>field\<close>/\<^verbatim>\<open>value\<close> pair moved into \<^verbatim>\<open>row_changes\<close>, the form of edit that
  \<^verbatim>\<open>handleMessage\<close> reads.
\<close>

definition verbatim :: "ws_message \<Rightarrow> ws_message" where
  "verbatim f = f"

definition batched_form :: "ws_message \<Rightarrow> ws_message" where
  "batched_form f =
     (if mtype f = ''edit'' then
        (case (field f, val f) of
           (Some fld, Some v) \<Rightarrow> f\<lparr>row_changes := Some [fld \<mapsto> v]\<rparr>
         | _ \<Rightarrow> f)
      else f)"

definition confirmations :: "(ws_message \<Rightarrow> ws_message) \<Rightarrow> 'a world \<Rightarrow> 'a world \<Rightarrow> 'a world" where
  "confirmations echo before after =
     foldl (\<lambda>w (i, f). step w (Socket_message i (echo f))) after
       (drop (length (sent before)) (sent after))"

definition round_trip ::
  "bool \<Rightarrow> (ws_message \<Rightarrow> ws_message) \<Rightarrow> app_state world \<Rightarrow> intent \<times> string \<Rightarrow> app_state world" where
  "round_trip with_optimistic echo w x =
     confirmations echo w
       (if with_optimistic then perform (fst x) (snd x) w
        else perform_without_optimistic (fst x) (snd x) w)"

definition session ::
  "bool \<Rightarrow> (ws_message \<Rightarrow> ws_message) \<Rightarrow> app_state world \<Rightarrow> (intent \<times> string) list \<Rightarrow> app_state world" where
  "session with_optimistic echo w xs = foldl (round_trip with_optimistic echo) w xs"

fun is_edit :: "intent \<Rightarrow> bool" where
  "is_edit (EditEntity k fld v) = True"
| "is_edit i = False"

text \<open>The component after mounting, with its socket open and \<^verbatim>\<open>handleMessage\<close> registered.\<close>

definition mounted :: "app_state world \<Rightarrow> bool" where
  "mounted w = (is_open w \<and> onMessageCallback (mgr w) = Some handleMessage)"

text \<open>
  A round trip on the mounted component, in closed form (\<open>round_trip_mounted\<close>): the
  frame is sent, comes back as \<open>echo\<close> returns it, sets \<^verbatim>\<open>clientVersion\<close> and is
  handled by \<^verbatim>\<open>handleMessage\<close>.
\<close>

definition confirmed ::
  "bool \<Rightarrow> (ws_message \<Rightarrow> ws_message) \<Rightarrow> intent \<Rightarrow> string \<Rightarrow> app_state world \<Rightarrow> app_state world" where
  "confirmed with_optimistic echo i now w =
     (let fr = stamp (request i) (clientVersion (mgr w)) (clientId (mgr w)) now in
      w\<lparr>sent := sent w @ [(the (socket (mgr w)), fr)],
        mgr := (mgr w)\<lparr>clientVersion := version (echo fr)\<rparr>,
        app := handleMessage (echo fr) (if with_optimistic then optimistic i (app w) else app w)\<rparr>)"

section \<open>LocalStorageWithIndex (frontend/src/local_sync.ts)\<close>

text \<open>
  \<^verbatim>\<open>localStorage\<close> maps strings to strings. Every string this class stores is the
  \<^verbatim>\<open>JSON.stringify\<close> text of a value and is read back with \<^verbatim>\<open>JSON.parse\<close>; the model
  keeps the value in place of its text: the array of composite keys under the index key,
  a value of type \<^verbatim>\<open>T\<close> under a composite key. A text that is read at the other type
  (the class itself never stores one so, see \<open>getFullKey_neq_indexKey\<close>) is read as no
  index and as no item.
\<close>

datatype 'a stored = Index_array "string list" | Item_json 'a

type_synonym 'a localStorage = "string \<rightharpoonup> 'a stored"

definition indexKey :: "string \<Rightarrow> string" where
  "indexKey prefix = ''__index__:'' @ prefix"

definition getFullKey :: "string \<Rightarrow> string \<Rightarrow> string" where
  "getFullKey prefix ident = prefix @ ''-'' @ ident"

definition getIndex :: "string \<Rightarrow> 'a localStorage \<Rightarrow> string list" where
  "getIndex prefix ls =
     (case ls (indexKey prefix) of
        Some (Index_array xs) \<Rightarrow> xs
      | Some (Item_json v) \<Rightarrow> []
      | None \<Rightarrow> [])"

definition setIndex :: "string \<Rightarrow> string list \<Rightarrow> 'a localStorage \<Rightarrow> 'a localStorage" where
  "setIndex prefix index ls = ls(indexKey prefix \<mapsto> Index_array index)"

text \<open>
  A JavaScript \<^verbatim>\<open>Set\<close> keeps its elements in insertion order, each once;
  \<^verbatim>\<open>Array.from\<close> lists them in that order.
\<close>

definition Set_add :: "'k list \<Rightarrow> 'k \<Rightarrow> 'k list" where
  "Set_add s x = (if x \<in> set s then s else s @ [x])"

definition Set_new :: "'k list \<Rightarrow> 'k list" where
  "Set_new xs = foldl Set_add [] xs"

definition Set_delete :: "'k list \<Rightarrow> 'k \<Rightarrow> 'k list" where
  "Set_delete s x = filter (\<lambda>y. y \<noteq> x) s"

definition setItem :: "string \<Rightarrow> string \<Rightarrow> 'a \<Rightarrow> 'a localStorage \<Rightarrow> 'a localStorage" where
  "setItem prefix ident v ls =
     (let fullKey = getFullKey prefix ident;
          ls1 = ls(fullKey \<mapsto> Item_json v);
          index = Set_add (Set_new (getIndex prefix ls1)) fullKey
      in setIndex prefix index ls1)"

definition getItem :: "string \<Rightarrow> string \<Rightarrow> 'a localStorage \<Rightarrow> 'a option" where
  "getItem prefix ident ls =
     (case ls (getFullKey prefix ident) of
        Some (Item_json v) \<Rightarrow> Some v
      | Some (Index_array xs) \<Rightarrow> None
      | None \<Rightarrow> None)"

definition getAllItems :: "string \<Rightarrow> 'a localStorage \<Rightarrow> (string \<rightharpoonup> 'a)" where
  "getAllItems prefix ls =
     foldl (\<lambda>items k.
              case ls k of
                Some (Item_json v) \<Rightarrow> items(k \<mapsto> v)
              | Some (Index_array xs) \<Rightarrow> items
              | None \<Rightarrow> items)
       Map.empty (getIndex prefix ls)"

definition removeItem :: "string \<Rightarrow> string \<Rightarrow> 'a localStorage \<Rightarrow> 'a localStorage" where
  "removeItem prefix ident ls =
     (let fullKey = getFullKey prefix ident;
          ls1 = ls(fullKey := None);
          index = Set_delete (Set_new (getIndex prefix ls1)) fullKey
      in setIndex prefix index ls1)"

definition clearAll :: "string \<Rightarrow> 'a localStorage \<Rightarrow> 'a localStorage" where
  "clearAll prefix ls =
     (foldl (\<lambda>l k. l(k := None)) ls (getIndex prefix ls))(indexKey prefix := None)"

subsection \<open>Histories of cache operations\<close>

text \<open>
  A history is a sequence of \<^verbatim>\<open>setItem\<close> and \<^verbatim>\<open>removeItem\<close> calls, and of removals of
  an item's stored text by other code (\<^verbatim>\<open>localStorage.removeItem\<close> on its composite
  key, behind the back of the class).
\<close>

datatype 'a cache_op =
    SetItem string 'a
  | RemoveItem string
  | Out_of_band_remove string

fun apply_op :: "string \<Rightarrow> 'a localStorage \<Rightarrow> 'a cache_op \<Rightarrow> 'a localStorage" where
  "apply_op prefix ls (SetItem ident v) = setItem prefix ident v ls"
| "apply_op prefix ls (RemoveItem ident) = removeItem prefix ident ls"
| "apply_op prefix ls (Out_of_band_remove ident) = ls(getFullKey prefix ident := None)"

text \<open>The storage after a history of cache operations.\<close>

definition history :: "string \<Rightarrow> 'a localStorage \<Rightarrow> 'a cache_op list \<Rightarrow> 'a localStorage" where
  "history prefix ls ops = foldl (apply_op prefix) ls ops"

text \<open>
  What the specification expects \<^verbatim>\<open>getAllItems\<close> to return after a history: every id
  that is set and not removed since, with the last value set for it; an id whose stored
  text was removed by other code is skipped.
\<close>

fun expected_step :: "(string \<rightharpoonup> 'a) \<Rightarrow> 'a cache_op \<Rightarrow> (string \<rightharpoonup> 'a)" where
  "expected_step m (SetItem ident v) = m(ident \<mapsto> v)"
| "expected_step m (RemoveItem ident) = m(ident := None)"
| "expected_step m (Out_of_band_remove ident) = m(ident := None)"

definition expected_items :: "'a cache_op list \<Rightarrow> (string \<rightharpoonup> 'a)" where
  "expected_items ops = foldl expected_step Map.empty ops"

section \<open>Predicates and example states used in the statements\<close>

text \<open>
  The events the browser delivers, as opposed to the calls the program makes.
\<close>

fun environment_event :: "'a event \<Rightarrow> bool" where
  "environment_event (Call_connect onMessage constructed) = False"
| "environment_event (Call_send message now) = False"
| "environment_event Call_disconnect = False"
| "environment_event ev = True"

fun is_socket_open :: "'a event \<Rightarrow> bool" where
  "is_socket_open (Socket_open i) = True"
| "is_socket_open ev = False"

fun is_socket_message :: "'a event \<Rightarrow> bool" where
  "is_socket_message (Socket_message i msg) = True"
| "is_socket_message ev = False"

text \<open>
  The manager has no state variable for the connection state. \<open>exhausted\<close> is the
  condition under which \<^verbatim>\<open>attemptReconnect\<close> does nothing; \<open>terminated\<close> adds that
  no socket is left that could deliver an event and no timer is pending.
\<close>

definition exhausted :: "'a world \<Rightarrow> bool" where
  "exhausted w = (maxReconnectAttempts (mgr w) \<le> reconnectAttempts (mgr w))"

definition terminated :: "'a world \<Rightarrow> bool" where
  "terminated w =
     (exhausted w \<and> list_all (\<lambda>r. r = CLOSED) (socks w) \<and> list_all (\<lambda>t. \<not> snd t) (timers w))"

definition fresh_world :: "app_state world" where
  "fresh_world =
     \<lparr>mgr = new_WebSocketManager ''c1'', socks = [], timers = [], sent = [], console = [],
      app = \<lparr>users = Map.empty, connectionStatus = connecting\<rparr>\<rparr>"

definition connecting_world :: "app_state world" where
  "connecting_world = connect handleMessage True fresh_world"

definition open_world :: "app_state world" where
  "open_world = step connecting_world (Socket_open 0)"

text \<open>
  Five reconnection attempts in a row, each socket closing before it opens, and the
  close of the last socket.
\<close>

definition exhausted_world :: "app_state world" where
  "exhausted_world =
     run connecting_world
       [Socket_close 0, Timer_fires 0 True, Socket_close 1, Timer_fires 1 True,
        Socket_close 2, Timer_fires 2 True, Socket_close 3, Timer_fires 3 True,
        Socket_close 4, Timer_fires 4 True, Socket_close 5]"

definition version_message :: "int \<Rightarrow> ws_message" where
  "version_message v =
     \<lparr>mtype = ''delete'', key = ''Mendy'', data = None, row_changes = None,
      field = None, val = None, version = v, frame_clientId = None, frame_time = None\<rparr>"

text \<open>The entity and the messages of the specification's example.\<close>

definition mendy30 :: obj where
  "mendy30 = [''name'' \<mapsto> JStr ''Mendy'', ''age'' \<mapsto> JNum 30, ''email'' \<mapsto> JStr ''m@x.com'']"

definition mendy31 :: obj where
  "mendy31 = [''name'' \<mapsto> JStr ''Mendy'', ''age'' \<mapsto> JNum 31, ''email'' \<mapsto> JStr ''m@x.com'']"

definition edit_age31 :: ws_message where
  "edit_age31 =
     \<lparr>mtype = ''edit'', key = ''Mendy'', data = None, row_changes = Some [''age'' \<mapsto> JNum 31],
      field = None, val = None, version = 1, frame_clientId = None, frame_time = None\<rparr>"

definition legacy_age31 :: ws_message where
  "legacy_age31 =
     \<lparr>mtype = ''edit'', key = ''Mendy'', data = None, row_changes = None,
      field = Some ''age'', val = Some (JNum 31), version = 1, frame_clientId = None,
      frame_time = None\<rparr>"

definition add_without_data :: ws_message where
  "add_without_data =
     \<lparr>mtype = ''add'', key = ''Mendy'', data = None, row_changes = None,
      field = None, val = None, version = 1, frame_clientId = None, frame_time = None\<rparr>"

definition mendy_state :: app_state where
  "mendy_state = \<lparr>users = [''Mendy'' \<mapsto> mendy30], connectionStatus = connected\<rparr>"

text \<open>Adding Mendy and then raising the age by one, as the two buttons of the page do.\<close>

definition add_then_edit :: "(intent \<times> string) list" where
  "add_then_edit =
     [(AddEntity ''Mendy'' 30 ''m@x.com'', ''t0''),
      (EditEntity ''Mendy'' ''age'' (JNum 31), ''t1'')]"

definition example_history :: "int cache_op list" where
  "example_history =
     [SetItem ''a'' 1, SetItem ''b'' 2, SetItem ''a'' 3, RemoveItem ''b'',
      SetItem ''c'' 4, Out_of_band_remove ''c'']"

section \<open>Facts about the example states\<close>

lemma connecting_world_eq:
  "connecting_world =
     \<lparr>mgr = \<lparr>socket = Some 0, clientId = ''c1'', clientVersion = 0, reconnectAttempts = 0,
             maxReconnectAttempts = 5, onMessageCallback = Some handleMessage\<rparr>,
      socks = [CONNECTING], timers = [], sent = [], console = [],
      app = \<lparr>users = Map.empty, connectionStatus = connecting\<rparr>\<rparr>"
  by (simp add: connecting_world_def fresh_world_def connect_def new_WebSocketManager_def Let_def)

lemma open_world_eq:
  "open_world =
     \<lparr>mgr = \<lparr>socket = Some 0, clientId = ''c1'', clientVersion = 0, reconnectAttempts = 0,
             maxReconnectAttempts = 5, onMessageCallback = Some handleMessage\<rparr>,
      socks = [OPEN], timers = [], sent = [], console = [Log_connected],
      app = \<lparr>users = Map.empty, connectionStatus = connecting\<rparr>\<rparr>"
  by (simp add: open_world_def connecting_world_eq onopen_def)

lemma is_open_open_world: "is_open open_world"
  by (simp add: open_world_eq is_open_def)

lemma not_is_open_connecting_world: "\<not> is_open connecting_world"
  by (simp add: connecting_world_eq is_open_def)

lemma exhausted_world_facts:
  "reconnectAttempts (mgr exhausted_world) = 5"
  "maxReconnectAttempts (mgr exhausted_world) = 5"
  "socks exhausted_world = [CLOSED, CLOSED, CLOSED, CLOSED, CLOSED, CLOSED]"
  "timers exhausted_world =
     [(2000, False), (4000, False), (6000, False), (8000, False), (10000, False)]"
  by (simp_all add: exhausted_world_def run_def connecting_world_eq onclose_def
      attemptReconnect_def timer_callback_def connect_def Let_def)

lemma terminated_exhausted_world: "terminated exhausted_world"
  by (simp add: terminated_def exhausted_def exhausted_world_facts)

lemma mendy30_update: "mendy30 ++ [''age'' \<mapsto> JNum 31] = mendy31"
  by (rule ext) (simp add: mendy30_def mendy31_def map_add_def)

section \<open>The inbound message handler\<close>

text \<open>
  Claim C10. An inbound \<^verbatim>\<open>add\<close> message without \<^verbatim>\<open>data\<close>, and an inbound
  \<^verbatim>\<open>edit\<close> message without \<^verbatim>\<open>row_changes\<close>, leave the entity mapping as it was:
  no entry is created, modified or removed.
\<close>

theorem handleMessage_missing_payload_unchanged:
  assumes "(mtype msg = ''add'' \<and> data msg = None)
           \<or> (mtype msg = ''edit'' \<and> row_changes msg = None)"
  shows "users (handleMessage msg s) = users s"
  using assms by (auto simp: handleMessage_def Let_def)

theorem handleMessage_missing_payload_unchanged_witness:
  "users (handleMessage add_without_data mendy_state) = users mendy_state
   \<and> users (handleMessage legacy_age31 mendy_state) = users mendy_state
   \<and> mtype add_without_data = ''add'' \<and> data add_without_data = None
   \<and> mtype legacy_age31 = ''edit'' \<and> row_changes legacy_age31 = None
   \<and> users mendy_state ''Mendy'' = Some mendy30"
  using handleMessage_missing_payload_unchanged [of add_without_data mendy_state]
        handleMessage_missing_payload_unchanged [of legacy_age31 mendy_state]
  by (simp add: add_without_data_def legacy_age31_def mendy_state_def)

text \<open>
  Claim C7. Reconciling an \<^verbatim>\<open>edit\<close> message whose \<^verbatim>\<open>row_changes\<close> is
  \<^verbatim>\<open>{age: 31}\<close> against the entity \<^verbatim>\<open>{name:"Mendy", age:30, email:"m@x.com"}\<close>
  yields \<^verbatim>\<open>{name:"Mendy", age:31, email:"m@x.com"}\<close>. For every \<^verbatim>\<open>edit\<close> message
  with \<^verbatim>\<open>row_changes\<close>, a field that \<^verbatim>\<open>row_changes\<close> does not name keeps its value,
  and the entries at all other keys are unchanged.
\<close>

theorem edit_merges_row_changes_only:
  assumes "mtype msg = ''edit''" and "row_changes msg = Some rc"
  shows "(rc = [''age'' \<mapsto> JNum 31] \<and> users s (key msg) = Some mendy30
            \<longrightarrow> users (handleMessage msg s) = (users s)(key msg \<mapsto> mendy31))
       \<and> (\<forall>e f. users s (key msg) = Some e \<and> f \<notin> dom rc
            \<longrightarrow> (\<exists>e'. users (handleMessage msg s) (key msg) = Some e' \<and> e' f = e f))
       \<and> (\<forall>k. k \<noteq> key msg \<longrightarrow> users (handleMessage msg s) k = users s k)"
  using assms mendy30_update
  by (auto simp: handleMessage_def Let_def spread_def map_add_def split: option.splits)

theorem edit_merges_row_changes_only_witness:
  "mtype edit_age31 = ''edit'' \<and> row_changes edit_age31 = Some [''age'' \<mapsto> JNum 31]
   \<and> users mendy_state (key edit_age31) = Some mendy30
   \<and> users (handleMessage edit_age31 mendy_state) = [''Mendy'' \<mapsto> mendy31]"
  using edit_merges_row_changes_only [of edit_age31 "[''age'' \<mapsto> JNum 31]" mendy_state]
  by (simp add: edit_age31_def mendy_state_def)

text \<open>
  Claim C5, as the code has it. The reader of \<^verbatim>\<open>edit\<close> messages accepts the batched
  form only: when the message carries \<^verbatim>\<open>row_changes\<close>, every field update in it is
  merged into the entry at the message's key; when it carries none, the mapping is left
  unchanged, whatever its \<^verbatim>\<open>field\<close> and \<^verbatim>\<open>value\<close> are.
\<close>

theorem edit_reader_accepts_batched_form_only:
  assumes "mtype msg = ''edit''"
  shows "(\<forall>rc. row_changes msg = Some rc \<longrightarrow>
            users (handleMessage msg s) = (users s)(key msg \<mapsto> spread (users s (key msg)) ++ rc)
          \<and> (\<forall>f v. rc f = Some v \<longrightarrow>
                (\<exists>e'. users (handleMessage msg s) (key msg) = Some e' \<and> e' f = Some v)))
       \<and> (row_changes msg = None \<longrightarrow> users (handleMessage msg s) = users s)"
  using assms
  by (auto simp: handleMessage_def Let_def)

theorem edit_reader_accepts_batched_form_only_witness:
  "mtype edit_age31 = ''edit'' \<and> row_changes edit_age31 = Some [''age'' \<mapsto> JNum 31]
   \<and> (\<exists>e'. users (handleMessage edit_age31 mendy_state) (key edit_age31) = Some e'
            \<and> e' ''age'' = Some (JNum 31))
   \<and> mtype legacy_age31 = ''edit'' \<and> row_changes legacy_age31 = None
   \<and> users (handleMessage legacy_age31 mendy_state) = users mendy_state"
  using edit_reader_accepts_batched_form_only [of edit_age31 mendy_state]
        edit_reader_accepts_batched_form_only [of legacy_age31 mendy_state]
  by (simp add: edit_age31_def legacy_age31_def)

text \<open>
  Claim C5 as stated fails: an \<^verbatim>\<open>edit\<close> message in the single-field form, with
  \<^verbatim>\<open>field = "age"\<close> and \<^verbatim>\<open>value = 31\<close>, leaves Mendy's age at 30.
\<close>

theorem legacy_edit_ignored_counterexample:
  "mtype legacy_age31 = ''edit'' \<and> field legacy_age31 = Some ''age''
   \<and> val legacy_age31 = Some (JNum 31) \<and> key legacy_age31 = ''Mendy''
   \<and> users mendy_state ''Mendy'' = Some mendy30
   \<and> users (handleMessage legacy_age31 mendy_state) ''Mendy'' = Some mendy30
   \<and> mendy30 ''age'' = Some (JNum 30)"
  by (simp add: legacy_age31_def mendy_state_def handleMessage_def mendy30_def)

section \<open>The connection manager\<close>

text \<open>
  Claim C3, as the code has it. When the socket is open, \<^verbatim>\<open>send\<close> hands exactly one
  frame to the transport: the message stamped with the manager's \<^verbatim>\<open>clientVersion\<close>
  and \<^verbatim>\<open>clientId\<close> and with the current time. Otherwise the message is dropped: nothing
  is handed to the transport or kept for later, and a line is written to the error
  console. In both cases the manager, the sockets, the timers and the component state are
  unchanged, and the caller gets the same result, \<^verbatim>\<open>undefined\<close>.
\<close>

theorem send_stamps_or_drops:
  "(is_open w \<longrightarrow>
      (\<exists>i fr. socket (mgr w) = Some i \<and> sent (snd (send message now w)) = sent w @ [(i, fr)]
         \<and> version fr = clientVersion (mgr w) \<and> frame_clientId fr = Some (clientId (mgr w))
         \<and> frame_time fr = Some now
         \<and> mtype fr = mtype message \<and> key fr = key message \<and> data fr = data message
         \<and> row_changes fr = row_changes message \<and> field fr = field message
         \<and> val fr = val message)
      \<and> console (snd (send message now w)) = console w)
   \<and> (\<not> is_open w \<longrightarrow>
        sent (snd (send message now w)) = sent w
        \<and> console (snd (send message now w)) = console w @ [Error_not_connected])
   \<and> mgr (snd (send message now w)) = mgr w \<and> app (snd (send message now w)) = app w
   \<and> socks (snd (send message now w)) = socks w \<and> timers (snd (send message now w)) = timers w
   \<and> fst (send message now w) = Returned_undefined"
  by (auto simp: send_def stamp_def is_open_def split: option.splits)

theorem send_stamps_or_drops_witness:
  "is_open open_world \<and> \<not> is_open connecting_world
   \<and> sent (snd (send (deleteUser_message ''Mendy'') ''t0'' open_world))
       = [(0, stamp (deleteUser_message ''Mendy'') 0 ''c1'' ''t0'')]
   \<and> sent (snd (send (deleteUser_message ''Mendy'') ''t0'' connecting_world)) = []
   \<and> console (snd (send (deleteUser_message ''Mendy'') ''t0'' connecting_world))
       = [Error_not_connected]"
  using send_stamps_or_drops [of open_world "deleteUser_message ''Mendy''" "''t0''"]
        send_stamps_or_drops [of connecting_world "deleteUser_message ''Mendy''" "''t0''"]
        is_open_open_world not_is_open_connecting_world
  by (simp add: send_def) (simp add: open_world_eq connecting_world_eq)

text \<open>
  Claim C3 as stated fails in its last part: a \<^verbatim>\<open>send\<close> on a socket that is not open
  gives its caller the same result as a \<^verbatim>\<open>send\<close> that transmits, so no failure is
  reported to the caller.
\<close>

theorem send_failure_not_reported_counterexample:
  "\<not> is_open connecting_world
   \<and> fst (send (deleteUser_message ''Mendy'') ''t0'' connecting_world) = Returned_undefined
   \<and> is_open open_world
   \<and> fst (send (deleteUser_message ''Mendy'') ''t0'' open_world) = Returned_undefined"
  by (simp add: send_def is_open_open_world not_is_open_connecting_world)

subsection \<open>Reconnection\<close>

lemma map_fst_mark_fired:
  "k < length ts \<Longrightarrow> map fst (ts[k := (fst (ts ! k), b)]) = map fst ts"
  by (simp add: map_update list_update_same_conv)

lemma step_keeps_exhausted:
  assumes "exhausted w" and "\<not> is_socket_open ev"
  shows "exhausted (step w ev) \<and> map fst (timers (step w ev)) = map fst (timers w)"
proof (cases ev)
  case (Socket_open i)
  with assms show ?thesis by simp
next
  case (Socket_message i msg)
  with assms show ?thesis
    by (simp add: exhausted_def onmessage_def Let_def split: option.splits)
next
  case (Socket_error i)
  with assms show ?thesis by (simp add: exhausted_def onerror_def)
next
  case (Socket_close i)
  with assms show ?thesis by (simp add: exhausted_def onclose_def attemptReconnect_def)
next
  case (Timer_fires k c)
  with assms show ?thesis
    by (simp add: exhausted_def timer_callback_def connect_def attemptReconnect_def Let_def
        map_fst_mark_fired split: option.splits)
next
  case (Call_connect cb c)
  with assms show ?thesis
    by (simp add: exhausted_def connect_def attemptReconnect_def Let_def)
next
  case (Call_send p t)
  with assms show ?thesis by (simp add: exhausted_def send_def)
next
  case Call_disconnect
  with assms show ?thesis by (simp add: exhausted_def disconnect_def split: option.splits)
qed

lemma run_keeps_exhausted:
  "exhausted w \<Longrightarrow> list_all (\<lambda>ev. \<not> is_socket_open ev) evs \<Longrightarrow>
     exhausted (run w evs) \<and> map fst (timers (run w evs)) = map fst (timers w)"
proof (induction evs arbitrary: w)
  case Nil
  then show ?case by (simp add: run_def)
next
  case (Cons ev evs)
  from Cons.prems have ex: "exhausted (step w ev)"
    and ts: "map fst (timers (step w ev)) = map fst (timers w)"
    using step_keeps_exhausted [of w ev] by simp_all
  from Cons.IH [OF ex] Cons.prems(2) ts show ?case by (simp add: run_def)
qed

lemma step_terminated:
  assumes "terminated w" and "environment_event ev"
  shows "step w ev = w"
proof (cases ev)
  case (Socket_open i)
  with assms show ?thesis by (auto simp: terminated_def list_all_length)
next
  case (Socket_message i msg)
  with assms show ?thesis by (auto simp: terminated_def list_all_length)
next
  case (Socket_error i)
  with assms show ?thesis by (auto simp: terminated_def list_all_length)
next
  case (Socket_close i)
  with assms show ?thesis by (auto simp: terminated_def list_all_length)
next
  case (Timer_fires k c)
  with assms show ?thesis by (auto simp: terminated_def list_all_length)
qed (use assms in simp_all)

lemma run_terminated:
  "terminated w \<Longrightarrow> list_all environment_event evs \<Longrightarrow> run w evs = w"
  by (induction evs) (simp_all add: run_def step_terminated)

text \<open>
  Claim C4. While fewer than \<^verbatim>\<open>maxReconnectAttempts\<close> attempts have been made, the
  close of a socket and a failed construction of one both increment the attempt counter
  and schedule one timer whose delay is 2000 ms times the incremented counter; the open
  event resets the counter to zero. Once the counter has reached
  \<^verbatim>\<open>maxReconnectAttempts\<close>, no sequence of events and calls without an open event
  schedules another timer (a manual \<^verbatim>\<open>connect\<close> included), and when moreover every
  socket is closed and no timer is pending, nothing the browser can deliver changes the
  state: the manager stays as it is until the program calls it.
\<close>

theorem reconnection_backoff_and_exhaustion:
  "(reconnectAttempts (mgr w) < maxReconnectAttempts (mgr w) \<longrightarrow>
      timers (onclose w) = timers w @ [(2000 * (reconnectAttempts (mgr w) + 1), True)]
      \<and> reconnectAttempts (mgr (onclose w)) = reconnectAttempts (mgr w) + 1
      \<and> timers (connect cb False w) = timers w @ [(2000 * (reconnectAttempts (mgr w) + 1), True)]
      \<and> reconnectAttempts (mgr (connect cb False w)) = reconnectAttempts (mgr w) + 1)
   \<and> reconnectAttempts (mgr (onopen w)) = 0
   \<and> (exhausted w \<and> list_all (\<lambda>ev. \<not> is_socket_open ev) evs \<longrightarrow>
        map fst (timers (run w evs)) = map fst (timers w) \<and> exhausted (run w evs))
   \<and> (terminated w \<and> list_all environment_event evs \<longrightarrow> run w evs = w)"
  using run_keeps_exhausted [of w evs] run_terminated [of w evs]
  by (simp add: onclose_def onopen_def connect_def attemptReconnect_def Let_def)

theorem reconnection_backoff_and_exhaustion_witness:
  "reconnectAttempts (mgr open_world) < maxReconnectAttempts (mgr open_world)
   \<and> timers (onclose open_world) = [(2000, True)]
   \<and> timers (connect handleMessage False open_world) = [(2000, True)]
   \<and> reconnectAttempts (mgr (onopen open_world)) = 0
   \<and> exhausted exhausted_world
   \<and> list_all (\<lambda>ev. \<not> is_socket_open ev)
         [Call_connect handleMessage True, Socket_close 6, Call_connect handleMessage False]
   \<and> map fst (timers (run exhausted_world
         [Call_connect handleMessage True, Socket_close 6, Call_connect handleMessage False]))
        = [2000, 4000, 6000, 8000, 10000]
   \<and> terminated exhausted_world
   \<and> list_all environment_event
         [Socket_close 5, Socket_error 2, Timer_fires 4 True :: app_state event]
   \<and> run exhausted_world [Socket_close 5, Socket_error 2, Timer_fires 4 True] = exhausted_world"
  using reconnection_backoff_and_exhaustion
          [of open_world handleMessage "[]"]
        reconnection_backoff_and_exhaustion
          [of exhausted_world handleMessage
              "[Call_connect handleMessage True, Socket_close 6, Call_connect handleMessage False]"]
        reconnection_backoff_and_exhaustion
          [of exhausted_world handleMessage "[Socket_close 5, Socket_error 2, Timer_fires 4 True]"]
        terminated_exhausted_world
  by (simp add: terminated_def exhausted_world_facts) (simp add: open_world_eq)

subsection \<open>Disconnecting\<close>

text \<open>
  Claim C2, as the code has it. \<^verbatim>\<open>disconnect\<close> is idempotent; it closes the socket the
  manager holds (an open or connecting socket becomes closing) and drops the manager's
  reference to it, and does nothing when the manager holds none. It leaves the registered
  callback, the attempt counter and the timers as they are: the call itself schedules
  no reconnection and cancels none.
\<close>

theorem disconnect_closes_and_is_idempotent:
  "disconnect (disconnect w) = disconnect w
   \<and> socket (mgr (disconnect w)) = None
   \<and> (\<forall>i. socket (mgr w) = Some i \<and> i < length (socks w) \<longrightarrow>
         socks (disconnect w) = (socks w)[i := close_socket (socks w ! i)]
         \<and> (socks w ! i = OPEN \<or> socks w ! i = CONNECTING \<longrightarrow> socks (disconnect w) ! i = CLOSING))
   \<and> (socket (mgr w) = None \<longrightarrow> disconnect w = w)
   \<and> onMessageCallback (mgr (disconnect w)) = onMessageCallback (mgr w)
   \<and> reconnectAttempts (mgr (disconnect w)) = reconnectAttempts (mgr w)
   \<and> timers (disconnect w) = timers w
   \<and> sent (disconnect w) = sent w \<and> app (disconnect w) = app w"
  by (auto simp: disconnect_def close_socket_def split: option.splits)

theorem disconnect_closes_and_is_idempotent_witness:
  "socket (mgr open_world) = Some 0 \<and> 0 < length (socks open_world) \<and> socks open_world ! 0 = OPEN
   \<and> socks (disconnect open_world) = [CLOSING]
   \<and> socket (mgr (disconnect open_world)) = None
   \<and> disconnect (disconnect open_world) = disconnect open_world"
  using disconnect_closes_and_is_idempotent [of open_world]
  by (simp add: open_world_eq close_socket_def)

text \<open>
  Claim C2 as stated fails. After \<^verbatim>\<open>disconnect\<close> on the open connection the callback
  is still registered; the close event of the socket that was closed then schedules a
  reconnection after 2000 ms, and when that timer fires the manager holds a new,
  connecting socket.
\<close>

theorem disconnect_does_not_stop_reconnection_counterexample:
  "is_open open_world
   \<and> onMessageCallback (mgr (step open_world Call_disconnect)) \<noteq> None
   \<and> timers (step open_world Call_disconnect) = []
   \<and> timers (run open_world [Call_disconnect, Socket_close 0]) = [(2000, True)]
   \<and> socket (mgr (run open_world [Call_disconnect, Socket_close 0, Timer_fires 0 True])) = Some 1
   \<and> socks (run open_world [Call_disconnect, Socket_close 0, Timer_fires 0 True])
       = [CLOSED, CONNECTING]"
  by (simp add: run_def open_world_eq is_open_def disconnect_def close_socket_def onclose_def
      attemptReconnect_def timer_callback_def connect_def Let_def)

subsection \<open>The version counter\<close>

lemma step_clientVersion:
  "clientVersion (mgr (step w ev)) =
     (case ev of
        Socket_message i msg \<Rightarrow>
          if i < length (socks w) \<and> socks w ! i = OPEN then version msg else clientVersion (mgr w)
      | _ \<Rightarrow> clientVersion (mgr w))"
  by (cases ev)
     (simp_all add: onopen_def onmessage_def onerror_def onclose_def attemptReconnect_def
        timer_callback_def connect_def send_def disconnect_def Let_def split: option.splits)

lemma step_message_socks: "socks (step w (Socket_message i msg)) = socks w"
  by (simp add: onmessage_def Let_def split: option.splits)

lemma run_messages_clientVersion:
  "i < length (socks w) \<Longrightarrow> socks w ! i = OPEN \<Longrightarrow>
     clientVersion (mgr (run w (map (Socket_message i) msgs)))
       = last (clientVersion (mgr w) # map version msgs)"
proof (induction msgs arbitrary: w)
  case Nil
  then show ?case by (simp add: run_def)
next
  case (Cons m msgs)
  let ?w1 = "step w (Socket_message i m)"
  have s: "socks ?w1 = socks w" by (rule step_message_socks)
  have v: "clientVersion (mgr ?w1) = version m"
    using Cons.prems step_clientVersion [of w "Socket_message i m"] by simp
  have "clientVersion (mgr (run ?w1 (map (Socket_message i) msgs)))
          = last (clientVersion (mgr ?w1) # map version msgs)"
    using Cons.prems s by (intro Cons.IH) simp_all
  with v show ?case by (simp add: run_def)
qed

lemma sorted_last_take:
  "sorted (c # vs) \<Longrightarrow> last (c # take n vs) \<le> last (c # (vs::int list))"
proof (induction vs arbitrary: c n)
  case Nil
  then show ?case by simp
next
  case (Cons v vs)
  show ?case
  proof (cases n)
    case 0
    have "last (c # v # vs) \<in> set (c # v # vs)" by (rule last_in_set) simp
    with Cons.prems 0 show ?thesis by auto
  next
    case (Suc k)
    from Cons.prems have "sorted (v # vs)" by simp
    from Cons.IH [OF this, of k] Suc show ?thesis by simp
  qed
qed

text \<open>
  Claim C6, as the code has it. \<^verbatim>\<open>clientVersion\<close> is updated only from the
  \<^verbatim>\<open>version\<close> field of inbound messages: no other event or call changes it, and
  after a sequence of messages delivered on an open socket it is the version of the last
  one (its old value when the sequence is empty). It never falls below a value it held
  before when the inbound versions, starting from the current value, are in
  non-decreasing order.
\<close>

theorem clientVersion_follows_last_message:
  "(\<not> is_socket_message ev \<longrightarrow> clientVersion (mgr (step w ev)) = clientVersion (mgr w))
   \<and> (i < length (socks w) \<and> socks w ! i = OPEN \<longrightarrow>
        clientVersion (mgr (run w (map (Socket_message i) msgs)))
          = last (clientVersion (mgr w) # map version msgs)
        \<and> (sorted (clientVersion (mgr w) # map version msgs) \<longrightarrow>
             (\<forall>n. clientVersion (mgr (run w (map (Socket_message i) (take n msgs))))
                    \<le> clientVersion (mgr (run w (map (Socket_message i) msgs))))))"
proof -
  have a: "\<not> is_socket_message ev \<Longrightarrow> clientVersion (mgr (step w ev)) = clientVersion (mgr w)"
    using step_clientVersion [of w ev] by (cases ev) simp_all
  have b: "clientVersion (mgr (run w (map (Socket_message i) (take n msgs))))
             \<le> clientVersion (mgr (run w (map (Socket_message i) msgs)))"
    if "i < length (socks w)" "socks w ! i = OPEN"
       "sorted (clientVersion (mgr w) # map version msgs)"
    for n
    using that sorted_last_take [of "clientVersion (mgr w)" "map version msgs" n]
    by (simp add: run_messages_clientVersion take_map)
  from a b show ?thesis by (simp add: run_messages_clientVersion)
qed

theorem clientVersion_follows_last_message_witness:
  "0 < length (socks open_world) \<and> socks open_world ! 0 = OPEN
   \<and> sorted (clientVersion (mgr open_world) # map version [version_message 2, version_message 7])
   \<and> clientVersion (mgr (run open_world
        (map (Socket_message 0) [version_message 2, version_message 7]))) = 7
   \<and> clientVersion (mgr (run open_world
        (map (Socket_message 0) (take 1 [version_message 2, version_message 7]))))
      \<le> clientVersion (mgr (run open_world
           (map (Socket_message 0) [version_message 2, version_message 7])))
   \<and> \<not> is_socket_message (Socket_close 0 :: app_state event)
   \<and> clientVersion (mgr (step open_world (Socket_close 0))) = clientVersion (mgr open_world)"
proof -
  let ?ms = "[version_message 2, version_message 7]"
  have o: "0 < length (socks open_world) \<and> socks open_world ! 0 = OPEN"
    by (simp add: open_world_eq)
  have s: "sorted (clientVersion (mgr open_world) # map version ?ms)"
    by (simp add: open_world_eq version_message_def)
  have e: "\<not> is_socket_message (Socket_close 0 :: app_state event)" by simp
  note t = clientVersion_follows_last_message [of "Socket_close 0" open_world 0 ?ms]
  from t e have 1: "clientVersion (mgr (step open_world (Socket_close 0)))
                      = clientVersion (mgr open_world)"
    by blast
  from t o have "clientVersion (mgr (run open_world (map (Socket_message 0) ?ms)))
                   = last (clientVersion (mgr open_world) # map version ?ms)"
    by blast
  then have 2: "clientVersion (mgr (run open_world (map (Socket_message 0) ?ms))) = 7"
    by (simp add: version_message_def)
  from t o s have 3: "clientVersion (mgr (run open_world (map (Socket_message 0) (take 1 ?ms))))
                        \<le> clientVersion (mgr (run open_world (map (Socket_message 0) ?ms)))"
    by blast
  from o s e 1 2 3 show ?thesis by blast
qed

text \<open>
  Claim C6 as stated fails: a message with version 5 followed by a message with version 3
  leaves \<^verbatim>\<open>clientVersion\<close> at 3, below the 5 it held before.
\<close>

theorem clientVersion_decreases_counterexample:
  "is_open open_world
   \<and> clientVersion (mgr (run open_world [Socket_message 0 (version_message 5)])) = 5
   \<and> clientVersion (mgr (run open_world [Socket_message 0 (version_message 5),
                                            Socket_message 0 (version_message 3)])) = 3"
  by (simp add: run_def open_world_eq is_open_def onmessage_def version_message_def Let_def)

section \<open>The user operations\<close>

lemma trim_fixed_iff:
  "trim s = s \<longleftrightarrow> s = [] \<or> (\<not> js_whitespace (hd s) \<and> \<not> js_whitespace (last s))"
proof (cases "s = []")
  case True
  then show ?thesis by (simp add: trim_def)
next
  case False
  show ?thesis
  proof (cases "js_whitespace (hd s)")
    case True
    with False have "length (dropWhile js_whitespace s) < length s"
      by (cases s) (simp_all add: le_imp_less_Suc length_dropWhile_le)
    moreover have "length (trim s) \<le> length (dropWhile js_whitespace s)"
      using length_dropWhile_le [of js_whitespace "rev (dropWhile js_whitespace s)"]
      by (simp add: trim_def)
    ultimately have "trim s \<noteq> s" by auto
    with True False show ?thesis by simp
  next
    case h: False
    with False have d: "dropWhile js_whitespace s = s" by (cases s) simp_all
    have "trim s = s \<longleftrightarrow> dropWhile js_whitespace (rev s) = rev s"
      by (simp add: trim_def d rev_swap)
    also have "\<dots> \<longleftrightarrow> \<not> js_whitespace (hd (rev s))"
      using False by (simp add: dropWhile_eq_self_iff)
    finally show ?thesis using False h by (simp add: hd_rev)
  qed
qed

lemma is_open_app_update: "is_open (w\<lparr>app := a\<rparr>) = is_open w"
  by (simp add: is_open_def split: option.splits)

lemma trim_examples:
  "trim ''Mendy'' = ''Mendy''" "trim '' Mendy '' = ''Mendy''" "trim ''m@x.com'' = ''m@x.com''"
  by (simp_all add: trim_def js_whitespace_def)

text \<open>
  Claim C9. \<^verbatim>\<open>addUser(name, age, email)\<close> stores the entity under the unmodified
  \<^verbatim>\<open>name\<close> as key, with the trimmed name and the trimmed email as its fields, and
  changes no other entry; when the socket is open, the \<^verbatim>\<open>add\<close> message it sends has
  the untrimmed name as key and the trimmed entity as data. So the key of the entry equals
  the name field of its entity exactly when the name has no leading and no trailing
  white space.
\<close>

theorem addUser_key_untrimmed_entity_trimmed:
  "users (app (addUser name age email now w)) name
     = Some [''name'' \<mapsto> JStr (trim name), ''age'' \<mapsto> JNum age,
             ''email'' \<mapsto> JStr (trim email), ''is_deleted'' \<mapsto> JBool False]
   \<and> (\<forall>k. k \<noteq> name \<longrightarrow> users (app (addUser name age email now w)) k = users (app w) k)
   \<and> (is_open w \<longrightarrow>
        (\<exists>i fr. sent (addUser name age email now w) = sent w @ [(i, fr)]
           \<and> mtype fr = ''add'' \<and> key fr = name
           \<and> data fr = Some [''name'' \<mapsto> JStr (trim name), ''age'' \<mapsto> JNum age,
                             ''email'' \<mapsto> JStr (trim email)]))
   \<and> ((\<exists>e. users (app (addUser name age email now w)) name = Some e
            \<and> e ''name'' = Some (JStr name))
        \<longleftrightarrow> name = [] \<or> (\<not> js_whitespace (hd name) \<and> \<not> js_whitespace (last name)))"
  using trim_fixed_iff [of name]
  by (auto simp: addUser_def addUser_optimistic_def addUser_message_def userData_def send_def
      stamp_def is_open_app_update)

theorem addUser_key_untrimmed_entity_trimmed_witness:
  "is_open open_world
   \<and> users (app (addUser '' Mendy '' 30 ''m@x.com'' ''t0'' open_world)) '' Mendy ''
       = Some [''name'' \<mapsto> JStr ''Mendy'', ''age'' \<mapsto> JNum 30,
               ''email'' \<mapsto> JStr ''m@x.com'', ''is_deleted'' \<mapsto> JBool False]
   \<and> users (app (addUser '' Mendy '' 30 ''m@x.com'' ''t0'' open_world)) ''Mendy'' = None
   \<and> js_whitespace (hd '' Mendy '')"
  using addUser_key_untrimmed_entity_trimmed [of "'' Mendy ''" 30 "''m@x.com''" "''t0''" open_world]
  by (simp add: trim_examples js_whitespace_def is_open_open_world) (simp add: open_world_eq)

subsection \<open>Optimistic updates and their confirmations\<close>

lemma perform_eq:
  "perform i now w = snd (send (request i) now (w\<lparr>app := optimistic i (app w)\<rparr>))"
  by (cases i) (simp_all add: addUser_def editUser_def deleteUser_def)

lemma round_trip_mounted:
  assumes "mounted w"
  shows "round_trip opt echo w (i, now) = confirmed opt echo i now w"
proof -
  from assms obtain j where j: "socket (mgr w) = Some j" "j < length (socks w)" "socks w ! j = OPEN"
    and cb: "onMessageCallback (mgr w) = Some handleMessage"
    by (auto simp: mounted_def is_open_def split: option.splits)
  from assms have o: "is_open w" by (simp add: mounted_def)
  show ?thesis
    using j cb o
    by (cases opt)
       (simp_all add: round_trip_def confirmations_def perform_eq perform_without_optimistic_def
          send_def is_open_app_update onmessage_def confirmed_def Let_def)
qed

lemma mounted_confirmed: "mounted w \<Longrightarrow> mounted (confirmed opt echo i now w)"
  by (simp add: mounted_def is_open_def confirmed_def Let_def split: option.splits)

lemma batched_absorbs:
  "handleMessage (batched_form (stamp (request i) v c now)) (optimistic i s)
     = handleMessage (batched_form (stamp (request i) v c now)) s"
  by (cases i)
     (simp_all add: handleMessage_def batched_form_def stamp_def addUser_message_def
        editUser_message_def deleteUser_message_def addUser_optimistic_def
        editUser_optimistic_def deleteUser_optimistic_def spread_def Let_def)

lemma verbatim_absorbs:
  "\<not> is_edit i \<Longrightarrow>
     handleMessage (verbatim (stamp (request i) v c now)) (optimistic i s)
       = handleMessage (verbatim (stamp (request i) v c now)) s"
  by (cases i)
     (simp_all add: handleMessage_def verbatim_def stamp_def addUser_message_def
        deleteUser_message_def addUser_optimistic_def
        deleteUser_optimistic_def Let_def)

lemma session_batched_eq:
  "mounted w \<Longrightarrow> session True batched_form w xs = session False batched_form w xs"
proof (induction xs arbitrary: w)
  case Nil
  then show ?case by (simp add: session_def)
next
  case (Cons x xs)
  obtain i now where x: "x = (i, now)" by (cases x)
  have e: "confirmed True batched_form i now w = confirmed False batched_form i now w"
    by (simp add: confirmed_def batched_absorbs Let_def)
  have m: "mounted (confirmed False batched_form i now w)"
    using Cons.prems by (rule mounted_confirmed)
  from Cons.IH [OF m] Cons.prems e x show ?case
    by (simp add: session_def round_trip_mounted)
qed

lemma session_verbatim_eq:
  "mounted w \<Longrightarrow> list_all (\<lambda>x. \<not> is_edit (fst x)) xs \<Longrightarrow>
     session True verbatim w xs = session False verbatim w xs"
proof (induction xs arbitrary: w)
  case Nil
  then show ?case by (simp add: session_def)
next
  case (Cons x xs)
  obtain i now where x: "x = (i, now)" by (cases x)
  with Cons.prems have ne: "\<not> is_edit i" by simp
  have e: "confirmed True verbatim i now w = confirmed False verbatim i now w"
    using ne by (simp add: confirmed_def verbatim_absorbs Let_def)
  have m: "mounted (confirmed False verbatim i now w)"
    using Cons.prems(1) by (rule mounted_confirmed)
  from Cons.IH [OF m] Cons.prems e x show ?case
    by (simp add: session_def round_trip_mounted)
qed

lemma mounted_open_world: "mounted open_world"
  by (simp add: mounted_def is_open_def open_world_eq)

lemma session_add_then_edit:
  "session opt echo open_world add_then_edit
     = confirmed opt echo (EditEntity ''Mendy'' ''age'' (JNum 31)) ''t1''
         (confirmed opt echo (AddEntity ''Mendy'' 30 ''m@x.com'') ''t0'' open_world)"
  by (simp add: session_def add_then_edit_def round_trip_mounted mounted_open_world
      mounted_confirmed)

text \<open>
  Claim C1, as the code has it. On the mounted component, for every sequence of
  \<^verbatim>\<open>addUser\<close>, \<^verbatim>\<open>editUser\<close> and \<^verbatim>\<open>deleteUser\<close> calls, each followed by the
  confirmation of the frame it sent, the entity mapping is the same whether or not the
  optimistic updates are applied, when the confirmation of an edit carries its update as
  \<^verbatim>\<open>row_changes = {field: value}\<close>; for sequences of \<^verbatim>\<open>addUser\<close> and
  \<^verbatim>\<open>deleteUser\<close> calls this holds with the frames echoed verbatim.
\<close>

theorem optimistic_step_absorbed_by_confirmation:
  assumes "mounted w"
  shows "users (app (session True batched_form w xs)) = users (app (session False batched_form w xs))
       \<and> (list_all (\<lambda>x. \<not> is_edit (fst x)) xs \<longrightarrow>
            users (app (session True verbatim w xs)) = users (app (session False verbatim w xs)))"
  using assms by (simp add: session_batched_eq session_verbatim_eq)

theorem optimistic_step_absorbed_by_confirmation_witness:
  "mounted open_world
   \<and> users (app (session True batched_form open_world add_then_edit))
       = users (app (session False batched_form open_world add_then_edit))
   \<and> field_of (users (app (session False batched_form open_world add_then_edit))) ''Mendy'' ''age''
       = Some (JNum 31)
   \<and> list_all (\<lambda>x. \<not> is_edit (fst x)) (take 1 add_then_edit)
   \<and> users (app (session True verbatim open_world (take 1 add_then_edit)))
       = users (app (session False verbatim open_world (take 1 add_then_edit)))"
proof -
  have e: "list_all (\<lambda>x. \<not> is_edit (fst x)) (take 1 add_then_edit)"
    by (simp add: add_then_edit_def)
  have f: "field_of (users (app (session False batched_form open_world add_then_edit))) ''Mendy'' ''age''
       = Some (JNum 31)"
    by (simp add: session_add_then_edit confirmed_def Let_def batched_form_def
      stamp_def handleMessage_def addUser_message_def editUser_message_def
      userData_def spread_def field_of_def)
  from optimistic_step_absorbed_by_confirmation [OF mounted_open_world, of add_then_edit]
       optimistic_step_absorbed_by_confirmation [OF mounted_open_world, of "take 1 add_then_edit"]
       e f mounted_open_world
  show ?thesis by blast
qed

text \<open>
  Claim C1 as stated fails. \<^verbatim>\<open>editUser\<close> sends its update as a
  \<^verbatim>\<open>field\<close>/\<^verbatim>\<open>value\<close> pair, which \<^verbatim>\<open>handleMessage\<close> does not read: with the
  frames echoed verbatim, adding Mendy at age 30 and editing the age to 31 ends with age 31
  when the optimistic updates are applied and with age 30 when they are not.
\<close>

theorem verbatim_edit_echo_counterexample:
  "mounted open_world
   \<and> field_of (users (app (session True verbatim open_world add_then_edit))) ''Mendy'' ''age''
       = Some (JNum 31)
   \<and> field_of (users (app (session False verbatim open_world add_then_edit))) ''Mendy'' ''age''
       = Some (JNum 30)"
  by (simp add: mounted_open_world session_add_then_edit confirmed_def Let_def verbatim_def
      stamp_def handleMessage_def addUser_message_def editUser_message_def
      addUser_optimistic_def editUser_optimistic_def userData_def spread_def field_of_def)

section \<open>The indexed cache\<close>

lemma getFullKey_neq_indexKey: "getFullKey prefix ident \<noteq> indexKey prefix"
proof
  assume "getFullKey prefix ident = indexKey prefix"
  then have "count_list (getFullKey prefix ident) CHR ''-'' = count_list (indexKey prefix) CHR ''-''"
    by simp
  then show False by (simp add: getFullKey_def indexKey_def)
qed

lemma getFullKey_inj: "getFullKey prefix i = getFullKey prefix j \<longleftrightarrow> i = j"
  by (simp add: getFullKey_def)

lemma set_foldl_Set_add: "set (foldl Set_add acc xs) = set acc \<union> set xs"
  by (induction xs arbitrary: acc) (auto simp: Set_add_def)

lemma set_Set_new: "set (Set_new xs) = set xs"
  by (simp add: Set_new_def set_foldl_Set_add)

lemma set_Set_add: "set (Set_add s x) = insert x (set s)"
  by (auto simp: Set_add_def)

lemma set_Set_delete: "set (Set_delete s x) = set s - {x}"
  by (auto simp: Set_delete_def)

lemma foldl_collect:
  "foldl (\<lambda>items k. case ls k of Some (Item_json v) \<Rightarrow> items(k \<mapsto> v)
                     | Some (Index_array xs) \<Rightarrow> items | None \<Rightarrow> items) m ks k'
     = (if k' \<in> set ks then (case ls k' of Some (Item_json v) \<Rightarrow> Some v | _ \<Rightarrow> m k') else m k')"
  by (induction ks arbitrary: m) (auto split: option.splits stored.splits)

lemma getAllItems_apply:
  "getAllItems prefix ls k =
     (if k \<in> set (getIndex prefix ls)
      then (case ls k of Some (Item_json v) \<Rightarrow> Some v | _ \<Rightarrow> None) else None)"
  by (simp add: getAllItems_def foldl_collect)

lemma getIndex_upd_other:
  "k \<noteq> indexKey prefix \<Longrightarrow> getIndex prefix (ls(k := c)) = getIndex prefix ls"
  by (simp add: getIndex_def)

lemma getIndex_setIndex: "getIndex prefix (setIndex prefix xs ls) = xs"
  by (simp add: getIndex_def setIndex_def)

lemma set_getIndex_setItem:
  "set (getIndex prefix (setItem prefix j v ls))
     = insert (getFullKey prefix j) (set (getIndex prefix ls))"
  using getFullKey_neq_indexKey [of prefix j]
  by (simp add: setItem_def Let_def getIndex_setIndex getIndex_upd_other set_Set_add set_Set_new)

lemma set_getIndex_removeItem:
  "set (getIndex prefix (removeItem prefix j ls))
     = set (getIndex prefix ls) - {getFullKey prefix j}"
  using getFullKey_neq_indexKey [of prefix j]
  by (simp add: removeItem_def Let_def getIndex_setIndex getIndex_upd_other set_Set_delete
      set_Set_new)

lemma setItem_apply:
  "k \<noteq> indexKey prefix \<Longrightarrow>
     setItem prefix j v ls k = (if k = getFullKey prefix j then Some (Item_json v) else ls k)"
  by (simp add: setItem_def Let_def setIndex_def)

lemma removeItem_apply:
  "k \<noteq> indexKey prefix \<Longrightarrow>
     removeItem prefix j ls k = (if k = getFullKey prefix j then None else ls k)"
  by (simp add: removeItem_def Let_def setIndex_def)

lemma out_of_band_apply:
  "(ls(getFullKey prefix j := None)) (getFullKey prefix i)
     = (if i = j then None else ls (getFullKey prefix i))"
  by (simp add: getFullKey_inj)

lemmas cache_step =
  set_getIndex_setItem set_getIndex_removeItem getIndex_upd_other setItem_apply removeItem_apply
  out_of_band_apply getFullKey_neq_indexKey getFullKey_inj

lemma history_snoc: "history prefix ls (ops @ [op]) = apply_op prefix (history prefix ls ops) op"
  by (simp add: history_def)

lemma expected_items_snoc: "expected_items (ops @ [op]) = expected_step (expected_items ops) op"
  by (simp add: expected_items_def)

lemma history_invariant:
  assumes "store (indexKey prefix) = None"
  shows "set (getIndex prefix (history prefix store ops)) \<subseteq> range (getFullKey prefix)
       \<and> (\<forall>i. getFullKey prefix i \<in> set (getIndex prefix (history prefix store ops)) \<longrightarrow>
              history prefix store ops (getFullKey prefix i) = map_option Item_json (expected_items ops i))
       \<and> (\<forall>i. getFullKey prefix i \<notin> set (getIndex prefix (history prefix store ops)) \<longrightarrow>
              expected_items ops i = None)"
proof (induction ops rule: rev_induct)
  case Nil
  from assms show ?case
    by (simp add: history_def expected_items_def getIndex_def)
next
  case (snoc op ops)
  let ?ls = "history prefix store ops"
  from snoc have a: "set (getIndex prefix ?ls) \<subseteq> range (getFullKey prefix)"
    and b: "\<And>i. getFullKey prefix i \<in> set (getIndex prefix ?ls) \<Longrightarrow>
              ?ls (getFullKey prefix i) = map_option Item_json (expected_items ops i)"
    and c: "\<And>i. getFullKey prefix i \<notin> set (getIndex prefix ?ls) \<Longrightarrow> expected_items ops i = None"
    by simp_all
  have a': "set (getIndex prefix (apply_op prefix ?ls op)) \<subseteq> range (getFullKey prefix)"
    using a by (cases op) (auto simp: cache_step)
  have b': "apply_op prefix ?ls op (getFullKey prefix i)
              = map_option Item_json (expected_step (expected_items ops) op i)"
    if "getFullKey prefix i \<in> set (getIndex prefix (apply_op prefix ?ls op))" for i
    using that b [of i]
    by (cases op) (auto simp: cache_step)
  have c': "expected_step (expected_items ops) op i = None"
    if "getFullKey prefix i \<notin> set (getIndex prefix (apply_op prefix ?ls op))" for i
    using that c [of i]
    by (cases op) (auto simp: cache_step)
  from a' b' c' show ?case by (simp add: history_snoc expected_items_snoc)
qed

lemma example_history_storage:
  "getIndex ''users'' (history ''users'' Map.empty example_history) = [''users-a'', ''users-c'']"
  "history ''users'' Map.empty example_history ''users-a'' = Some (Item_json 3)"
  "history ''users'' Map.empty example_history ''users-c'' = None"
  by (simp_all add: history_def example_history_def setItem_def removeItem_def Let_def getIndex_def
      setIndex_def getFullKey_def indexKey_def Set_new_def Set_add_def Set_delete_def)

text \<open>
  Claim C8, as the code has it. Starting from a storage that holds no index for the
  prefix, after any sequence of \<^verbatim>\<open>setItem\<close> and \<^verbatim>\<open>removeItem\<close> calls and of
  out-of-band removals of stored items, \<^verbatim>\<open>getAllItems\<close> returns a mapping keyed by
  composite key: under \<^verbatim>\<open>prefix-id\<close> it holds the value most recently set for
  \<^verbatim>\<open>id\<close>, for exactly the ids that were set and neither removed since nor lost
  out of band. Its keys are the keys of the index whose stored item is still there.
\<close>

theorem getAllItems_after_history:
  assumes "store (indexKey prefix) = None"
  shows "(\<forall>i. getAllItems prefix (history prefix store ops) (getFullKey prefix i) = expected_items ops i)
       \<and> dom (getAllItems prefix (history prefix store ops)) = getFullKey prefix ` dom (expected_items ops)
       \<and> dom (getAllItems prefix (history prefix store ops))
           = {k \<in> set (getIndex prefix (history prefix store ops)). history prefix store ops k \<noteq> None}"
proof -
  let ?ls = "history prefix store ops"
  from assms history_invariant [of store prefix ops]
  have a: "set (getIndex prefix ?ls) \<subseteq> range (getFullKey prefix)"
    and b: "\<And>i. getFullKey prefix i \<in> set (getIndex prefix ?ls) \<Longrightarrow>
              ?ls (getFullKey prefix i) = map_option Item_json (expected_items ops i)"
    and c: "\<And>i. getFullKey prefix i \<notin> set (getIndex prefix ?ls) \<Longrightarrow> expected_items ops i = None"
    by simp_all
  have g: "getAllItems prefix ?ls (getFullKey prefix i) = expected_items ops i" for i
  proof (cases "getFullKey prefix i \<in> set (getIndex prefix ?ls)")
    case True
    from b [OF True] True show ?thesis
      by (cases "expected_items ops i") (simp_all add: getAllItems_apply)
  next
    case False
    with c [OF False] show ?thesis by (simp add: getAllItems_apply)
  qed
  have n: "getAllItems prefix ?ls k = None" if "k \<notin> range (getFullKey prefix)" for k
    using that a by (auto simp: getAllItems_apply)
  have d: "dom (getAllItems prefix ?ls) = getFullKey prefix ` dom (expected_items ops)"
  proof (rule set_eqI)
    fix k
    show "k \<in> dom (getAllItems prefix ?ls) \<longleftrightarrow> k \<in> getFullKey prefix ` dom (expected_items ops)"
    proof (cases "k \<in> range (getFullKey prefix)")
      case True
      then obtain i where "k = getFullKey prefix i" by blast
      with g [of i] show ?thesis by (auto simp: getFullKey_inj dom_def)
    next
      case False
      with n [OF False] show ?thesis by (auto simp: dom_def)
    qed
  qed
  have e: "dom (getAllItems prefix ?ls) = {k \<in> set (getIndex prefix ?ls). ?ls k \<noteq> None}"
  proof (rule set_eqI)
    fix k
    show "k \<in> dom (getAllItems prefix ?ls) \<longleftrightarrow> k \<in> {k \<in> set (getIndex prefix ?ls). ?ls k \<noteq> None}"
    proof (cases "k \<in> set (getIndex prefix ?ls)")
      case True
      with a obtain i where i: "k = getFullKey prefix i" by blast
      from b [of i] True i have "?ls k = map_option Item_json (expected_items ops i)" by simp
      with True show ?thesis
        by (cases "expected_items ops i") (auto simp: getAllItems_apply dom_def)
    next
      case False
      then show ?thesis by (auto simp: getAllItems_apply dom_def)
    qed
  qed
  from g d e show ?thesis by simp
qed

theorem getAllItems_after_history_witness:
  "(Map.empty :: int localStorage) (indexKey ''users'') = None
   \<and> getAllItems ''users'' (history ''users'' Map.empty example_history) (getFullKey ''users'' ''a'') = Some 3
   \<and> expected_items example_history ''a'' = Some 3
   \<and> getAllItems ''users'' (history ''users'' Map.empty example_history) (getFullKey ''users'' ''b'') = None
   \<and> getAllItems ''users'' (history ''users'' Map.empty example_history) (getFullKey ''users'' ''c'') = None
   \<and> getIndex ''users'' (history ''users'' Map.empty example_history) = [''users-a'', ''users-c'']
   \<and> dom (getAllItems ''users'' (history ''users'' Map.empty example_history)) = {''users-a''}"
proof -
  have z: "(Map.empty :: int localStorage) (indexKey ''users'') = None" by simp
  have x: "expected_items example_history ''a'' = Some 3"
    "expected_items example_history ''b'' = None" "expected_items example_history ''c'' = None"
    by (simp_all add: expected_items_def example_history_def)
  have s: "{k \<in> set (getIndex ''users'' (history ''users'' Map.empty example_history)).
             history ''users'' Map.empty example_history k \<noteq> None} = {''users-a''}"
    by (auto simp: example_history_storage)
  note t = getAllItems_after_history [of "Map.empty :: int localStorage" "''users''" example_history]
  from t z have g: "getAllItems ''users'' (history ''users'' Map.empty example_history)
                      (getFullKey ''users'' i) = expected_items example_history i" for i
    by blast
  from t z have "dom (getAllItems ''users'' (history ''users'' Map.empty example_history))
           = {k \<in> set (getIndex ''users'' (history ''users'' Map.empty example_history)).
                history ''users'' Map.empty example_history k \<noteq> None}"
    by blast
  with s have d: "dom (getAllItems ''users'' (history ''users'' Map.empty example_history))
                    = {''users-a''}"
    by simp
  from g [of "''a''"] g [of "''b''"] g [of "''c''"] x
  have v: "getAllItems ''users'' (history ''users'' Map.empty example_history)
             (getFullKey ''users'' ''a'') = Some 3"
    "getAllItems ''users'' (history ''users'' Map.empty example_history)
             (getFullKey ''users'' ''b'') = None"
    "getAllItems ''users'' (history ''users'' Map.empty example_history)
             (getFullKey ''users'' ''c'') = None"
    by simp_all
  from z v x(1) example_history_storage(1) d show ?thesis by blast
qed

text \<open>
  Claim C8 as stated fails: the mapping that \<^verbatim>\<open>getAllItems\<close> returns has no entry
  under the id \<^verbatim>\<open>Mendy\<close> that was set; the entry is under the composite key
  \<^verbatim>\<open>users-Mendy\<close>.
\<close>

theorem getAllItems_keys_are_composite_counterexample:
  "getAllItems ''users'' (history ''users'' Map.empty [SetItem ''Mendy'' (30::int)]) ''Mendy'' = None
   \<and> expected_items [SetItem ''Mendy'' (30::int)] ''Mendy'' = Some 30
   \<and> getIndex ''users'' (history ''users'' Map.empty [SetItem ''Mendy'' (30::int)]) = [''users-Mendy'']
   \<and> getAllItems ''users'' (history ''users'' Map.empty [SetItem ''Mendy'' (30::int)]) ''users-Mendy''
       = Some 30"
  by (simp add: history_def setItem_def Let_def getIndex_def setIndex_def getFullKey_def
      indexKey_def Set_new_def Set_add_def getAllItems_def expected_items_def)

end
